theory Spec2Isabelle
  imports Main "HOL-Library.Word"
begin

unbundle bit_operations_syntax

section \<open>Go values\<close>

text \<open>
  Go's \<open>int\<close> is a 64-bit two's complement integer on the platforms the client is built
  for: \<open>+\<close> wraps around, comparisons are signed (\<open><s\<close>, \<open>\<le>s\<close>), and \<open>%d\<close> prints
  the signed value. A Go \<open>string\<close> is a byte sequence, here a \<open>string\<close>. A nil slice
  and an empty slice are both the empty list, and a nil pointer to an optional field is
  \<open>None\<close>.
\<close>

type_synonym go_int = "64 word"
type_synonym byte = "8 word"

datatype go_error = Error string

text \<open>\<open>fmt.Sprintf("%d", i)\<close> and \<open>strconv.Itoa\<close>: the decimal digits, with a sign.\<close>

fun digits10 :: "nat \<Rightarrow> string" where
  "digits10 n =
     (if n < 10 then [''0123456789'' ! n]
      else digits10 (n div 10) @ [''0123456789'' ! (n mod 10)])"

definition itoa :: "int \<Rightarrow> string" where
  "itoa i = (if i < 0 then CHR ''-'' # digits10 (nat (- i)) else digits10 (nat i))"

text \<open>\<open>strings.TrimLeft(s, cutset)\<close> for an ASCII cutset.\<close>

definition TrimLeft :: "string \<Rightarrow> string \<Rightarrow> string" where
  "TrimLeft s cutset = dropWhile (\<lambda>c. c \<in> set cutset) s"

text \<open>\<open>hex.EncodeToString\<close>: two characters of the table per byte, high nibble first.\<close>

definition hextable :: string where
  "hextable = ''0123456789abcdef''"

fun hex_EncodeToString :: "byte list \<Rightarrow> string" where
  "hex_EncodeToString [] = []"
| "hex_EncodeToString (v # src) =
     hextable ! unat (drop_bit 4 v) # hextable ! unat (v AND 0x0f) # hex_EncodeToString src"

subsection \<open>The standard library's path.Join\<close>

text \<open>
  \<open>path.Clean\<close> and \<open>path.Join\<close> belong to Go's standard library. They are modelled from
  their documentation: Clean replaces runs of slashes by one slash, drops every \<open>.\<close>
  element, drops every inner \<open>..\<close> element with the element before it, drops \<open>..\<close>
  elements that begin a rooted path, and returns \<open>.\<close> for an empty result; Join puts a
  slash between its elements, ignoring empty leading ones, and cleans the result.
\<close>

fun splitc :: "char \<Rightarrow> string \<Rightarrow> string list" where
  "splitc c [] = [[]]"
| "splitc c (x # xs) =
     (if x = c then [] # splitc c xs
      else (case splitc c xs of [] \<Rightarrow> [[x]] | y # ys \<Rightarrow> (x # y) # ys))"

fun join_slash :: "string list \<Rightarrow> string" where
  "join_slash [] = []"
| "join_slash [e] = e"
| "join_slash (e # f # es) = e @ CHR ''/'' # join_slash (f # es)"

definition clean_step :: "bool \<Rightarrow> string list \<Rightarrow> string \<Rightarrow> string list" where
  "clean_step rooted st e =
     (if e = [] \<or> e = ''.'' then st
      else if e = ''..'' then
        (if st \<noteq> [] \<and> last st \<noteq> ''..'' then butlast st
         else if rooted then st
         else st @ [''..''])
      else st @ [e])"

definition path_Clean :: "string \<Rightarrow> string" where
  "path_Clean p =
     (case p of
        [] \<Rightarrow> ''.''
      | c # _ \<Rightarrow>
          (let rooted = (c = CHR ''/'');
               st = foldl (clean_step rooted) [] (splitc CHR ''/'' p);
               out = (if rooted then ''/'' else []) @ join_slash st
           in if out = [] then ''.'' else out))"

definition path_Join :: "string list \<Rightarrow> string" where
  "path_Join elem =
     (if concat elem = [] then []
      else path_Clean
        (foldl (\<lambda>buf e. if buf \<noteq> [] \<or> e \<noteq> []
                          then (if buf \<noteq> [] then buf @ ''/'' else buf) @ e
                          else buf) [] elem))"

section \<open>Data model\<close>

text \<open>dns.go: \<open>DnsRecord\<close>, with its optional fields as pointers.\<close>

record DnsRecord =
  Type :: "string option"
  ID :: "go_int option"
  Name :: string
  Content :: "string option"
  Ttl :: go_int
  Priority :: "go_int option"
  Port :: "go_int option"
  Weight :: "go_int option"

text \<open>dns.go: \<open>DnsRecordPaginatedCollection\<close>, the page descriptor with its records.\<close>

record DnsRecordPaginatedCollection =
  CurrentPage :: "go_int option"
  TotalPages :: "go_int option"
  TotalRecords :: "go_int option"
  RowsPerPage :: "go_int option"
  NextPageUrl :: "string option"
  Data :: "DnsRecord list"

text \<open>The zero value of \<open>var ret DnsRecordPaginatedCollection\<close>.\<close>

definition zero_collection :: DnsRecordPaginatedCollection where
  "zero_collection =
     \<lparr>CurrentPage = None, TotalPages = None, TotalRecords = None, RowsPerPage = None,
      NextPageUrl = None, Data = []\<rparr>"

text \<open>A JSON document, as \<open>json.Marshal\<close> writes it for a record.\<close>

datatype json = JNull | JString string | JNumber int | JObject "(string \<times> json) list"

text \<open>
  \<open>url.Values\<close> is a \<open>map[string][]string\<close>; a key that is absent has no values.
  \<open>Add\<close> appends a value to the key's values.
\<close>

type_synonym url_Values = "string \<Rightarrow> string list"

definition no_Values :: url_Values where
  "no_Values = (\<lambda>_. [])"

definition Values_Add :: "url_Values \<Rightarrow> string \<Rightarrow> string \<Rightarrow> url_Values" where
  "Values_Add v key val = v(key := v key @ [val])"

text \<open>
  An \<open>http.Request\<close> as the client fills it: method, URL without the query, the query
  parameters (Go stores their encoding in \<open>URL.RawQuery\<close>), the headers set with
  \<open>Header.Set\<close>, the credentials given to \<open>SetBasicAuth\<close>, and the body.
\<close>

record http_request =
  Method :: string
  URL :: string
  Query :: url_Values
  Header :: "string \<rightharpoonup> string"
  BasicAuth :: "(string \<times> string) option"
  ReqBody :: "json option"

text \<open>
  An \<open>http.Response\<close>: the status code, and what \<open>io.ReadAll(resp.Body)\<close> gives,
  the bytes of the body or a read error.
\<close>

record http_response =
  StatusCode :: go_int
  Body :: "go_error + string"

text \<open>
  What \<open>http.Client.Do\<close> returns. A response of any status comes with a nil error; an
  error comes with no response, or with the last response when a redirect is refused.
  A nil response with a nil error is never returned.
\<close>

datatype transport_result =
    Responded http_response
  | Failed "http_response option" go_error

fun resp_of :: "transport_result \<Rightarrow> http_response option" where
  "resp_of (Responded r) = Some r"
| "resp_of (Failed r e) = r"

fun err_of :: "transport_result \<Rightarrow> go_error option" where
  "err_of (Responded r) = None"
| "err_of (Failed r e) = Some e"

text \<open>client.go: \<open>apiError\<close>; an \<open>ApiError\<close> is such a value or nil.\<close>

record apiError =
  err :: go_error
  resp :: "http_response option"

type_synonym ApiError = "apiError option"

text \<open>
  client.go: \<open>helper\<close>, the configuration. The HTTP client is represented by its
  timeout (a \<open>time.Duration\<close>, in nanoseconds); the logger is left out.
\<close>

record helper =
  apiEndpoint :: string
  authKey :: string
  authSecret :: string
  timeout :: "64 word"
  maxPages :: go_int

record domainAction =
  h :: helper
  svcID :: go_int

subsection \<open>The world outside the client\<close>

text \<open>
  Everything the code reaches through the standard library is a field of the
  environment: the clock, the keyed hash, the validation done by \<open>http.NewRequest\<close>, the
  transport behind \<open>http.Client.Do\<close> (network and server), \<open>url.ParseQuery\<close>,
  \<open>json.Unmarshal\<close> into a page descriptor, and the position at which Go starts to range
  over a map, which the language leaves unspecified. The state of the outside world has
  type \<open>'w\<close>, a reading of the clock has type \<open>'t\<close>.
\<close>

record ('w, 't) env =
  time_Now :: "'w \<Rightarrow> 't \<times> 'w"
  time_Unix :: "'t \<Rightarrow> 64 word"
  time_Format_RFC3339_UTC :: "'t \<Rightarrow> string"
  hmac_sha1 :: "string \<Rightarrow> string \<Rightarrow> byte list"
  http_NewRequest_err :: "string \<Rightarrow> string \<Rightarrow> go_error option"
  client_Do :: "http_request \<Rightarrow> 'w \<Rightarrow> transport_result \<times> 'w"
  url_ParseQuery :: "string \<Rightarrow> (string \<times> string list) list \<times> go_error option"
  range_start :: "'w \<Rightarrow> nat"
  json_Unmarshal :: "string \<Rightarrow> DnsRecordPaginatedCollection \<times> go_error option"

text \<open>
  The state threaded through the client: the outside world, and the requests handed to
  the transport so far, oldest first.
\<close>

record 'w world =
  sent :: "http_request list"
  ext :: 'w

section \<open>client.go\<close>

datatype Option = ApiEndpoint string | Timeout "64 word"

fun apply_Option :: "Option \<Rightarrow> helper \<Rightarrow> helper" where
  "apply_Option (ApiEndpoint ep) c = c\<lparr>apiEndpoint := ep\<rparr>"
| "apply_Option (Timeout to) c = c\<lparr>timeout := to\<rparr>"

definition New :: "string \<Rightarrow> string \<Rightarrow> Option list \<Rightarrow> helper" where
  "New apiKey apiSecret opts =
     foldl (\<lambda>c opt. apply_Option opt c)
       \<lparr>apiEndpoint = ''https://rest.active24.cz'', authKey = apiKey,
        authSecret = apiSecret, timeout = 10 * 1000000000, maxPages = 100\<rparr>
       opts"

definition apiErr :: "http_response option \<Rightarrow> go_error option \<Rightarrow> ApiError" where
  "apiErr rsp e = (case e of None \<Rightarrow> None | Some e' \<Rightarrow> Some \<lparr>err = e', resp = rsp\<rparr>)"

definition getSignature :: "('w, 't) env \<Rightarrow> string \<Rightarrow> string \<Rightarrow> string" where
  "getSignature E message key = hex_EncodeToString (hmac_sha1 E key message)"

definition doWithParams ::
  "('w, 't) env \<Rightarrow> helper \<Rightarrow> string \<Rightarrow> string \<Rightarrow> url_Values \<Rightarrow> json option \<Rightarrow> 'w world
     \<Rightarrow> transport_result \<times> 'w world" where
  "doWithParams E ch reqMethod reqPath reqParams reqBody w =
     (let reqPath' = path_Join [''/'', reqPath];
          (reqTimestamp, x1) = time_Now E (ext w);
          canonicalRequest =
            reqMethod @ '' '' @ reqPath' @ '' '' @ itoa (sint (time_Unix E reqTimestamp));
          authSignature = getSignature E canonicalRequest (authSecret ch)
      in case http_NewRequest_err E reqMethod (apiEndpoint ch @ reqPath') of
           Some e \<Rightarrow> (Failed None e, w\<lparr>ext := x1\<rparr>)
         | None \<Rightarrow>
             (let r = \<lparr>Method = reqMethod, URL = apiEndpoint ch @ reqPath',
                       Query = reqParams,
                       Header = [''Content-Type'' \<mapsto> ''application/json'',
                                 ''Accept'' \<mapsto> ''application/json'',
                                 ''Date'' \<mapsto> time_Format_RFC3339_UTC E reqTimestamp],
                       BasicAuth = Some (authKey ch, authSignature),
                       ReqBody = reqBody\<rparr>;
                  (res, x2) = client_Do E r x1
              in (res, \<lparr>sent = sent w @ [r], ext = x2\<rparr>)))"

definition do' ::
  "('w, 't) env \<Rightarrow> helper \<Rightarrow> string \<Rightarrow> string \<Rightarrow> json option \<Rightarrow> 'w world
     \<Rightarrow> transport_result \<times> 'w world" where
  "do' E ch reqMethod reqPath reqBody w = doWithParams E ch reqMethod reqPath no_Values reqBody w"

section \<open>dns.go\<close>

definition With :: "helper \<Rightarrow> go_int \<Rightarrow> domainAction" where
  "With ch serviceID = \<lparr>h = ch, svcID = serviceID\<rparr>"

text \<open>
  \<open>json.Marshal\<close> of a \<open>DnsRecord\<close>, as its struct tags direct it: the fields in
  declaration order, a field tagged \<open>omitempty\<close> left out when its pointer is nil.
\<close>

definition omitempty_string :: "string \<Rightarrow> string option \<Rightarrow> (string \<times> json) list" where
  "omitempty_string key p = (case p of None \<Rightarrow> [] | Some s \<Rightarrow> [(key, JString s)])"

definition omitempty_int :: "string \<Rightarrow> go_int option \<Rightarrow> (string \<times> json) list" where
  "omitempty_int key p = (case p of None \<Rightarrow> [] | Some i \<Rightarrow> [(key, JNumber (sint i))])"

definition json_Marshal_DnsRecord :: "DnsRecord \<Rightarrow> json" where
  "json_Marshal_DnsRecord r =
     JObject
       (omitempty_string ''type'' (Type r) @
        omitempty_int ''id'' (ID r) @
        [(''name'', JString (Name r))] @
        omitempty_string ''content'' (Content r) @
        [(''ttl'', JNumber (sint (Ttl r)))] @
        omitempty_int ''priority'' (Priority r) @
        omitempty_int ''port'' (Port r) @
        omitempty_int ''weight'' (Weight r))"

text \<open>
  The first entry that \<open>for k, v := range m\<close> visits: Go starts at a position of its
  choosing, and the loop in \<open>ListPaginated\<close> breaks after that entry.
\<close>

definition range_first ::
  "('w, 't) env \<Rightarrow> 'w \<Rightarrow> (string \<times> string list) list \<Rightarrow> (string \<times> string list) option" where
  "range_first E x m = (if m = [] then None else Some (m ! (range_start E x mod length m)))"

text \<open>\<open>ListPaginated\<close>, lines 156 to 185: the query parameters of the page request.\<close>

definition ListPaginated_params ::
  "('w, 't) env \<Rightarrow> string \<Rightarrow> string \<Rightarrow> string \<Rightarrow> go_int \<Rightarrow> 'w \<Rightarrow> go_error + url_Values" where
  "ListPaginated_params E recType recName recPageUrl recPage x =
     (let reqParams = Values_Add no_Values ''descending'' ''false'';
          reqParams = Values_Add reqParams ''sortBy'' ''name'';
          reqParams = (if recType \<noteq> [] then
                         Values_Add reqParams ''filters[type]''
                           (''['' @ [CHR 0x22] @ recType @ [CHR 0x22] @ '']'')
                       else reqParams);
          reqParams = (if recName \<noteq> [] then Values_Add reqParams ''filters[name]'' recName
                       else reqParams)
      in case (if recPageUrl \<noteq> [] then
                 (case url_ParseQuery E recPageUrl of
                    (recPageUrlValues, Some e) \<Rightarrow> Inl e
                  | (recPageUrlValues, None) \<Rightarrow>
                      (case range_first E x recPageUrlValues of
                         None \<Rightarrow> Inr (reqParams, False)
                       | Some (k, v) \<Rightarrow>
                           if k \<noteq> [] \<and> 0 < length v \<and> hd v \<noteq> []
                           then Inr (Values_Add reqParams k (hd v), True)
                           else Inr (reqParams, False)))
               else Inr (reqParams, False)) of
           Inl e \<Rightarrow> Inl e
         | Inr (reqParams, hasRecPageUrl) \<Rightarrow>
             Inr (if \<not> hasRecPageUrl \<and> 1 <s recPage
                  then Values_Add reqParams ''page'' (itoa (sint recPage))
                  else reqParams))"

text \<open>\<open>ListPaginated\<close>, lines 194 to 206: status check, reading and decoding the body.\<close>

definition ListPaginated_decode ::
  "('w, 't) env \<Rightarrow> http_response \<Rightarrow> DnsRecordPaginatedCollection \<times> ApiError" where
  "ListPaginated_decode E rsp =
     (if 399 <s StatusCode rsp \<and> StatusCode rsp <s 600 then
        (zero_collection,
         apiErr (Some rsp)
           (Some (Error (''invalid response from API: '' @ itoa (sint (StatusCode rsp))))))
      else case Body rsp of
             Inl e \<Rightarrow> (zero_collection, apiErr (Some rsp) (Some e))
           | Inr body \<Rightarrow>
               (case json_Unmarshal E body of
                  (ret, Some e) \<Rightarrow> (ret, apiErr (Some rsp) (Some e))
                | (ret, None) \<Rightarrow> (ret, apiErr (Some rsp) None)))"

definition ListPaginated ::
  "('w, 't) env \<Rightarrow> domainAction \<Rightarrow> string \<Rightarrow> string \<Rightarrow> string \<Rightarrow> go_int \<Rightarrow> 'w world
     \<Rightarrow> (DnsRecordPaginatedCollection \<times> ApiError) \<times> 'w world" where
  "ListPaginated E d recType recName recPageUrl recPage w =
     (case ListPaginated_params E recType recName recPageUrl recPage (ext w) of
        Inl e \<Rightarrow> ((zero_collection, apiErr None (Some e)), w)
      | Inr reqParams \<Rightarrow>
          (case doWithParams E (h d) ''GET''
                  (''v2/service/'' @ itoa (sint (svcID d)) @ ''/dns/record'') reqParams None w of
             (Failed rsp e, w') \<Rightarrow> ((zero_collection, apiErr None (Some e)), w')
           | (Responded rsp, w') \<Rightarrow> (ListPaginated_decode E rsp, w')))"

definition ListPage ::
  "('w, 't) env \<Rightarrow> domainAction \<Rightarrow> string \<Rightarrow> string \<Rightarrow> string \<Rightarrow> go_int \<Rightarrow> 'w world
     \<Rightarrow> (DnsRecord list \<times> string \<times> go_int \<times> ApiError) \<times> 'w world" where
  "ListPage E d recType recName recPageUrl recPage w =
     (case ListPaginated E d recType recName recPageUrl recPage w of
        ((ret, Some e), w') \<Rightarrow> (([], [], 0, Some e), w')
      | ((ret, None), w') \<Rightarrow>
          (if NextPageUrl ret \<noteq> None \<and> the (NextPageUrl ret) \<noteq> [] then
             ((Data ret, TrimLeft (the (NextPageUrl ret)) ''/?'', 0, None), w')
           else if CurrentPage ret \<noteq> None \<and> TotalPages ret \<noteq> None
                   \<and> the (CurrentPage ret) <s the (TotalPages ret) then
             ((Data ret, [], the (CurrentPage ret) + 1, None), w')
           else ((Data ret, [], 0, None), w')))"

text \<open>The error that \<open>List\<close> builds with \<open>fmt.Errorf\<close> when it stops at the page limit.\<close>

definition page_limit_reached :: "go_int \<Rightarrow> go_error" where
  "page_limit_reached n =
     Error (''maximum page limit reached in List, partial result returned, maxPages: ''
              @ itoa (sint n) @ '', increase the limit in the configuration'')"

text \<open>
  The \<open>for\<close> loop of \<open>List\<close> with the statements after it. The counter is a Go \<open>int\<close>,
  so the loop need not end; a run that does not return has the value \<open>None\<close>.
\<close>

partial_function (option) List_loop ::
  "('w, 't) env \<Rightarrow> domainAction \<Rightarrow> string \<Rightarrow> string \<Rightarrow> go_int \<Rightarrow> string \<Rightarrow> go_int
     \<Rightarrow> DnsRecord list \<Rightarrow> 'w world \<Rightarrow> ((DnsRecord list \<times> ApiError) \<times> 'w world) option" where
  "List_loop E d recType recName pageCount nextPageUrl nextPage allRecords w =
     (if (pageCount = 1 \<or> nextPageUrl \<noteq> [] \<or> 0 <s nextPage) \<and> pageCount \<le>s maxPages (h d) then
        (case ListPage E d recType recName nextPageUrl nextPage w of
           ((pageRecords, nextPageUrl', nextPage', Some e), w') \<Rightarrow> Some (([], Some e), w')
         | ((pageRecords, nextPageUrl', nextPage', None), w') \<Rightarrow>
             List_loop E d recType recName (pageCount + 1) nextPageUrl' nextPage'
               (allRecords @ pageRecords) w')
      else if maxPages (h d) <s pageCount \<and> (nextPageUrl \<noteq> [] \<or> maxPages (h d) <s nextPage) then
        Some ((allRecords, apiErr None (Some (page_limit_reached (maxPages (h d))))), w)
      else Some ((allRecords, None), w))"

definition List ::
  "('w, 't) env \<Rightarrow> domainAction \<Rightarrow> string \<Rightarrow> string \<Rightarrow> 'w world
     \<Rightarrow> ((DnsRecord list \<times> ApiError) \<times> 'w world) option" where
  "List E d recType recName w = List_loop E d recType recName 1 [] 0 [] w"

definition ListAll ::
  "('w, 't) env \<Rightarrow> domainAction \<Rightarrow> 'w world \<Rightarrow> ((DnsRecord list \<times> ApiError) \<times> 'w world) option" where
  "ListAll E d w = List E d [] [] w"

definition Create ::
  "('w, 't) env \<Rightarrow> domainAction \<Rightarrow> DnsRecord \<Rightarrow> 'w world \<Rightarrow> ApiError \<times> 'w world" where
  "Create E d r w =
     (case do' E (h d) ''POST'' (''v2/service/'' @ itoa (sint (svcID d)) @ ''/dns/record'')
             (Some (json_Marshal_DnsRecord r)) w of
        (res, w') \<Rightarrow> (apiErr (resp_of res) (err_of res), w'))"

definition change ::
  "('w, 't) env \<Rightarrow> domainAction \<Rightarrow> string \<Rightarrow> go_int \<Rightarrow> DnsRecord \<Rightarrow> 'w world
     \<Rightarrow> transport_result \<times> 'w world" where
  "change E d method recordID r w =
     do' E (h d) method
       (''v2/service/'' @ itoa (sint (svcID d)) @ ''/dns/record/'' @ itoa (sint recordID))
       (Some (json_Marshal_DnsRecord r)) w"

definition Update ::
  "('w, 't) env \<Rightarrow> domainAction \<Rightarrow> go_int \<Rightarrow> DnsRecord \<Rightarrow> 'w world \<Rightarrow> ApiError \<times> 'w world" where
  "Update E d ID' r w =
     (case change E d ''PUT'' ID' r w of
        (res, w') \<Rightarrow> (apiErr (resp_of res) (err_of res), w'))"

definition Delete ::
  "('w, 't) env \<Rightarrow> domainAction \<Rightarrow> go_int \<Rightarrow> 'w world \<Rightarrow> ApiError \<times> 'w world" where
  "Delete E d ID' w =
     (case do' E (h d) ''DELETE''
             (''v2/service/'' @ itoa (sint (svcID d)) @ ''/dns/record/'' @ itoa (sint ID')) None w of
        (res, w') \<Rightarrow> (apiErr (resp_of res) (err_of res), w'))"

section \<open>Notions used to state the properties\<close>

text \<open>
  The lowercase hexadecimal encoding in the words of the specification: every byte gives
  two digits, the more significant first, and the digits above 9 are the letters
  \<open>a\<close> to \<open>f\<close> (ASCII 97 to 102).
\<close>

definition lower_hex_digit :: "nat \<Rightarrow> char" where
  "lower_hex_digit n = (if n < 10 then char_of (48 + n) else char_of (87 + n))"

definition lower_hex :: "byte list \<Rightarrow> string" where
  "lower_hex bs =
     concat (map (\<lambda>b. [lower_hex_digit (unat b div 16), lower_hex_digit (unat b mod 16)]) bs)"

text \<open>Path elements that are not empty and hold no slash.\<close>

definition elems_ok :: "string list \<Rightarrow> bool" where
  "elems_ok st = list_all (\<lambda>e. e \<noteq> [] \<and> CHR ''/'' \<notin> set e) st"

text \<open>The keys of a JSON object, in the order written.\<close>

fun json_keys :: "json \<Rightarrow> string list" where
  "json_keys (JObject kvs) = map fst kvs"
| "json_keys _ = []"

text \<open>The value written under a key of a JSON object.\<close>

definition json_field :: "json \<Rightarrow> string \<Rightarrow> json option" where
  "json_field j = map_of (case j of JObject kvs \<Rightarrow> kvs | _ \<Rightarrow> [])"

text \<open>
  The parameters that every page request carries, in the words of the specification: the
  fixed sort, and each filter when it was requested.
\<close>

definition base_params :: "string \<Rightarrow> string \<Rightarrow> url_Values" where
  "base_params recType recName key =
     (if key = ''descending'' then [''false'']
      else if key = ''sortBy'' then [''name'']
      else if key = ''filters[type]'' \<and> recType \<noteq> [] then
        [''['' @ [CHR 0x22] @ recType @ [CHR 0x22] @ '']'']
      else if key = ''filters[name]'' \<and> recName \<noteq> [] then [recName]
      else [])"

text \<open>
  The parameter that a locator contributes to a request: the first entry visited of its
  parsed query, with the first of its values, when neither is empty.
\<close>

definition locator_param :: "('w, 't) env \<Rightarrow> 'w \<Rightarrow> string \<Rightarrow> (string \<times> string) option" where
  "locator_param E x recPageUrl =
     (if recPageUrl = [] then None
      else case range_first E x (fst (url_ParseQuery E recPageUrl)) of
             None \<Rightarrow> None
           | Some (k, v) \<Rightarrow> if k \<noteq> [] \<and> v \<noteq> [] \<and> hd v \<noteq> [] then Some (k, hd v) else None)"

text \<open>
  The query of a page request as a whole: the parameters that every request carries,
  with the parameter of the locator when it contributes one, and otherwise with the page
  number when that is above 1.
\<close>

definition page_params ::
  "('w, 't) env \<Rightarrow> string \<Rightarrow> string \<Rightarrow> string \<Rightarrow> go_int \<Rightarrow> 'w \<Rightarrow> url_Values" where
  "page_params E recType recName recPageUrl recPage x =
     (case locator_param E x recPageUrl of
        Some (k, v) \<Rightarrow> Values_Add (base_params recType recName) k v
      | None \<Rightarrow>
          if 1 < sint recPage
          then Values_Add (base_params recType recName) ''page'' (itoa (sint recPage))
          else base_params recType recName)"

text \<open>
  The continuation that a decoded page announces, in the words of the specification:
  the locator without its leading \<open>/\<close> and \<open>?\<close> when there is a non-empty one, else the
  number after the current page when that is below the total, else nothing.
\<close>

definition continuation :: "DnsRecordPaginatedCollection \<Rightarrow> string \<times> int" where
  "continuation ret =
     (case NextPageUrl ret of
        Some (c # u) \<Rightarrow> (dropWhile (\<lambda>a. a = CHR ''/'' \<or> a = CHR ''?'') (c # u), 0)
      | _ \<Rightarrow>
          (case (CurrentPage ret, TotalPages ret) of
             (Some cur, Some tot) \<Rightarrow> if sint cur < sint tot then ([], sint cur + 1) else ([], 0)
           | _ \<Rightarrow> ([], 0)))"

text \<open>
  The states of the loop of \<open>List\<close> in a run that starts in the world \<open>w0\<close>: the values
  of \<open>pageCount\<close>, \<open>nextPageUrl\<close>, \<open>nextPage\<close> and \<open>allRecords\<close> and the world, each time the
  loop condition is about to be evaluated. A state is followed by another when the
  condition holds and the page fetch returns no error.
\<close>

inductive List_reaches ::
  "('w, 't) env \<Rightarrow> domainAction \<Rightarrow> string \<Rightarrow> string \<Rightarrow> 'w world
     \<Rightarrow> go_int \<Rightarrow> string \<Rightarrow> go_int \<Rightarrow> DnsRecord list \<Rightarrow> 'w world \<Rightarrow> bool"
  for E d recType recName w0 where
  start: "List_reaches E d recType recName w0 1 [] 0 [] w0"
| fetch: "List_reaches E d recType recName w0 pageCount nextPageUrl nextPage allRecords w \<Longrightarrow>
          (pageCount = 1 \<or> nextPageUrl \<noteq> [] \<or> 0 <s nextPage) \<and> pageCount \<le>s maxPages (h d) \<Longrightarrow>
          ListPage E d recType recName nextPageUrl nextPage w
            = ((pageRecords, nextPageUrl', nextPage', None), w') \<Longrightarrow>
          List_reaches E d recType recName w0 (pageCount + 1) nextPageUrl' nextPage'
            (allRecords @ pageRecords) w'"

text \<open>
  What a caller and the network see of a run of \<open>List\<close> that returned: the records, the
  error and the number of requests handed to the transport in all; the requests
  themselves; and the values they carry under a key.
\<close>

definition outcome ::
  "((DnsRecord list \<times> ApiError) \<times> 'w world) option \<Rightarrow> (DnsRecord list \<times> ApiError \<times> nat) option" where
  "outcome r = (case r of None \<Rightarrow> None | Some ((recs, e), w) \<Rightarrow> Some (recs, e, length (sent w)))"

definition requests_of :: "('a \<times> 'w world) option \<Rightarrow> http_request list" where
  "requests_of r = (case r of None \<Rightarrow> [] | Some (a, w) \<Rightarrow> sent w)"

definition param_values :: "string \<Rightarrow> http_request list \<Rightarrow> string list list" where
  "param_values key rs = map (\<lambda>r. Query r key) rs"

section \<open>Test doubles\<close>

text \<open>
  A stand-in for the outside world, for running the client on concrete inputs. The
  server answers the \<open>k\<close>-th request it receives (counting from 0) with the status and
  body \<open>answers k\<close>; \<open>pages\<close> lists what each body decodes to. The clock stands at
  1700000000, the keyed hash is a fixed four-byte value, every request is well-formed,
  and ranging over a map starts at its first entry. The query parser splits at \<open>&\<close> and
  at the first \<open>=\<close>, which is what \<open>url.ParseQuery\<close> does on a string with distinct keys
  and no escapes.
\<close>

definition stub_ParseQuery :: "string \<Rightarrow> (string \<times> string list) list \<times> go_error option" where
  "stub_ParseQuery s =
     (map (\<lambda>kv. (takeWhile (\<lambda>c. c \<noteq> CHR ''='') kv, [drop 1 (dropWhile (\<lambda>c. c \<noteq> CHR ''='') kv)]))
        (filter (\<lambda>kv. kv \<noteq> []) (splitc CHR ''&'' s)),
      None)"

definition stub_env ::
  "(nat \<Rightarrow> go_int \<times> string) \<Rightarrow> (string \<times> DnsRecordPaginatedCollection) list \<Rightarrow> (nat, nat) env" where
  "stub_env answers pages =
     \<lparr>time_Now = (\<lambda>x. (1700000000, x)),
      time_Unix = of_nat,
      time_Format_RFC3339_UTC = (\<lambda>t. ''2023-11-14T22:13:20Z''),
      hmac_sha1 = (\<lambda>key message. [0xde, 0xad, 0xbe, 0xef]),
      http_NewRequest_err = (\<lambda>method url. None),
      client_Do = (\<lambda>r x. (Responded \<lparr>StatusCode = fst (answers x), Body = Inr (snd (answers x))\<rparr>,
                            Suc x)),
      url_ParseQuery = stub_ParseQuery,
      range_start = (\<lambda>x. 0),
      json_Unmarshal = (\<lambda>body. case map_of pages body of
                                  Some c \<Rightarrow> (c, None)
                                | None \<Rightarrow> (zero_collection, Some (Error ''unexpected end of JSON input'')))\<rparr>"

definition stub_world :: "nat world" where
  "stub_world = \<lparr>sent = [], ext = 0\<rparr>"

definition stub_record :: "string \<Rightarrow> DnsRecord" where
  "stub_record name =
     \<lparr>Type = Some ''A'', ID = None, Name = name, Content = Some ''192.0.2.1'', Ttl = 600,
      Priority = None, Port = None, Weight = None\<rparr>"

text \<open>A page with one record, a locator and page numbers as given.\<close>

definition stub_page ::
  "string \<Rightarrow> string option \<Rightarrow> go_int option \<Rightarrow> go_int option \<Rightarrow> DnsRecordPaginatedCollection" where
  "stub_page name locator cur tot =
     \<lparr>CurrentPage = cur, TotalPages = tot, TotalRecords = None, RowsPerPage = None,
      NextPageUrl = locator, Data = [stub_record name]\<rparr>"

section \<open>The signer\<close>

lemma below_16: "n < 16 \<Longrightarrow> n \<in> {0, 1, 2, 3, 4, 5, 6, 7, 8, 9, 10, 11, 12, 13, 14, 15 :: nat}"
  by (simp; arith)

lemma hextable_code:
  "n < 16 \<Longrightarrow> (of_char (hextable ! n) :: nat) = (if n < 10 then 48 + n else 87 + n)"
  by (drule below_16) (auto simp: hextable_def)

lemma hextable_nth: "n < 16 \<Longrightarrow> hextable ! n = lower_hex_digit n"
  unfolding lower_hex_digit_def using hextable_code [of n]
  by (metis char_of_char)

lemma hextable_mem: "n < 16 \<Longrightarrow> hextable ! n \<in> set ''0123456789abcdef''"
  by (drule below_16) (auto simp: hextable_def)

lemma hi_nibble: "unat (drop_bit 4 v) = unat v div 16" for v :: byte
  by (simp add: unat_drop_bit_eq drop_bit_eq_div unat_div)

lemma lo_nibble: "unat (v AND 0x0f) = unat v mod 16" for v :: byte
proof -
  have "v AND 0x0f = take_bit 4 v"
    by (simp add: take_bit_eq_mask mask_eq_exp_minus_1)
  then show ?thesis
    by (simp add: unsigned_take_bit_eq take_bit_eq_mod unat_mod)
qed

lemma hi_lt: "unat v div 16 < 16" for v :: byte
proof -
  have "unat v < 256"
    using unsigned_less [of v] by simp
  then show ?thesis by simp
qed

lemma lo_lt: "unat v mod 16 < 16" for v :: byte
  by simp

lemma hex_EncodeToString_eq: "hex_EncodeToString bs = lower_hex bs"
  by (induction bs) (simp_all add: lower_hex_def hi_nibble lo_nibble hextable_nth hi_lt)

lemma lower_hex_set: "set (lower_hex bs) \<subseteq> set ''0123456789abcdef''"
proof (induction bs)
  case Nil
  then show ?case by (simp add: lower_hex_def)
next
  case (Cons b bs)
  have "lower_hex (b # bs)
          = hextable ! (unat b div 16) # hextable ! (unat b mod 16) # lower_hex bs"
    by (simp add: lower_hex_def hextable_nth hi_lt)
  with Cons hextable_mem [OF hi_lt, of b] hextable_mem [OF lo_lt, of b] show ?case
    by (simp del: set_simps
          add: list.set(2) [of _ "lower_hex bs"] list.set(2) [of _ "_ # lower_hex bs"])
qed

lemma lower_hex_length: "length (lower_hex bs) = 2 * length bs"
  by (induction bs) (simp_all add: lower_hex_def)

text \<open>
  C7. For every message and key, \<open>getSignature\<close> returns the lowercase hexadecimal
  encoding of the keyed hash (HMAC-SHA1, from Go's library) of the message under the key:
  two digits per byte of the digest, all of them among \<open>0\<close> to \<open>9\<close> and \<open>a\<close> to \<open>f\<close>.
  The result is a function of the message and the key alone, and the signer neither reads
  nor changes the state of the world.
\<close>

theorem getSignature_lower_hex:
  "getSignature E message key = lower_hex (hmac_sha1 E key message)
   \<and> set (getSignature E message key) \<subseteq> set ''0123456789abcdef''
   \<and> length (getSignature E message key) = 2 * length (hmac_sha1 E key message)"
  by (simp only: getSignature_def hex_EncodeToString_eq lower_hex_set lower_hex_length)

section \<open>Serializing a record\<close>

lemma omitempty_string_keys:
  "map fst (omitempty_string key p) = (if p = None then [] else [key])"
  by (cases p) (simp_all add: omitempty_string_def)

lemma omitempty_int_keys:
  "map fst (omitempty_int key p) = (if p = None then [] else [key])"
  by (cases p) (simp_all add: omitempty_int_def)

lemma omitempty_string_map_of:
  "k \<noteq> key \<Longrightarrow> map_of (omitempty_string key p @ kvs) k = map_of kvs k"
  by (cases p) (simp_all add: omitempty_string_def)

lemma omitempty_int_map_of:
  "k \<noteq> key \<Longrightarrow> map_of (omitempty_int key p @ kvs) k = map_of kvs k"
  by (cases p) (simp_all add: omitempty_int_def)

lemma marshal_keys:
  "json_keys (json_Marshal_DnsRecord r) =
     (if Type r = None then [] else [''type'']) @ (if ID r = None then [] else [''id'']) @
     [''name''] @ (if Content r = None then [] else [''content'']) @ [''ttl''] @
     (if Priority r = None then [] else [''priority'']) @
     (if Port r = None then [] else [''port'']) @ (if Weight r = None then [] else [''weight''])"
  by (simp add: json_Marshal_DnsRecord_def omitempty_string_keys omitempty_int_keys)

lemma marshal_name: "json_field (json_Marshal_DnsRecord r) ''name'' = Some (JString (Name r))"
  by (simp add: json_field_def json_Marshal_DnsRecord_def omitempty_string_map_of
        omitempty_int_map_of del: map_of_append)

lemma marshal_ttl:
  "json_field (json_Marshal_DnsRecord r) ''ttl'' = Some (JNumber (sint (Ttl r)))"
  by (simp add: json_field_def json_Marshal_DnsRecord_def omitempty_string_map_of
        omitempty_int_map_of del: map_of_append)

lemma marshal_bare:
  "Type r = None \<Longrightarrow> ID r = None \<Longrightarrow> Content r = None \<Longrightarrow> Priority r = None
     \<Longrightarrow> Port r = None \<Longrightarrow> Weight r = None
     \<Longrightarrow> json_Marshal_DnsRecord r
          = JObject [(''name'', JString (Name r)), (''ttl'', JNumber (sint (Ttl r)))]"
  by (simp add: json_Marshal_DnsRecord_def omitempty_string_def omitempty_int_def)

text \<open>
  C6. Serializing a record whose optional fields (type, id, content, priority, port,
  weight) are all absent gives the JSON object with exactly the keys \<open>name\<close> and \<open>ttl\<close>.
  In every serialization \<open>name\<close> and \<open>ttl\<close> are written with the record's values, and the
  key of an optional field is written exactly when the field is present, so an absent
  field is left out and never written as null or zero.
\<close>

theorem marshal_omits_absent_fields:
  "(Type r = None \<and> ID r = None \<and> Content r = None \<and> Priority r = None \<and> Port r = None
      \<and> Weight r = None
    \<longrightarrow> json_Marshal_DnsRecord r
          = JObject [(''name'', JString (Name r)), (''ttl'', JNumber (sint (Ttl r)))])
   \<and> json_field (json_Marshal_DnsRecord r) ''name'' = Some (JString (Name r))
   \<and> json_field (json_Marshal_DnsRecord r) ''ttl'' = Some (JNumber (sint (Ttl r)))
   \<and> (''type'' \<in> set (json_keys (json_Marshal_DnsRecord r))) = (Type r \<noteq> None)
   \<and> (''id'' \<in> set (json_keys (json_Marshal_DnsRecord r))) = (ID r \<noteq> None)
   \<and> (''content'' \<in> set (json_keys (json_Marshal_DnsRecord r))) = (Content r \<noteq> None)
   \<and> (''priority'' \<in> set (json_keys (json_Marshal_DnsRecord r))) = (Priority r \<noteq> None)
   \<and> (''port'' \<in> set (json_keys (json_Marshal_DnsRecord r))) = (Port r \<noteq> None)
   \<and> (''weight'' \<in> set (json_keys (json_Marshal_DnsRecord r))) = (Weight r \<noteq> None)"
  using marshal_bare [of r] by (simp add: marshal_name marshal_ttl marshal_keys)

theorem marshal_omits_absent_fields_witness:
  "json_Marshal_DnsRecord
     \<lparr>Type = None, ID = None, Name = ''host1'', Content = None, Ttl = 600,
      Priority = None, Port = None, Weight = None\<rparr>
   = JObject [(''name'', JString ''host1''), (''ttl'', JNumber 600)]"
  using marshal_omits_absent_fields
    [of "\<lparr>Type = None, ID = None, Name = ''host1'', Content = None, Ttl = 600,
          Priority = None, Port = None, Weight = None\<rparr>"]
  by simp

section \<open>The request executor\<close>

text \<open>The equations that run the client against the test doubles.\<close>

lemmas stub_simps =
  stub_env_def stub_world_def stub_page_def stub_record_def stub_ParseQuery_def
  ListPage_def ListPaginated_def ListPaginated_params_def ListPaginated_decode_def
  doWithParams_def do'_def apiErr_def range_first_def Values_Add_def no_Values_def
  zero_collection_def word_sless_alt word_sle_eq With_def New_def TrimLeft_def Let_def

lemma splitc_nonempty: "splitc c s \<noteq> []"
  by (induction s) (auto split: list.splits)

lemma splitc_no_sep: "e \<in> set (splitc c s) \<Longrightarrow> c \<notin> set e"
proof (induction s arbitrary: e)
  case Nil
  then show ?case by simp
next
  case (Cons x xs)
  then show ?case
    by (cases "splitc c xs") (auto split: if_splits)
qed

lemma clean_step_ok:
  "elems_ok st \<Longrightarrow> CHR ''/'' \<notin> set e \<Longrightarrow> elems_ok (clean_step rooted st e)"
  by (auto simp: elems_ok_def clean_step_def list_all_iff dest: in_set_butlastD)

lemma foldl_clean_step_ok:
  "elems_ok st \<Longrightarrow> list_all (\<lambda>e. CHR ''/'' \<notin> set e) es \<Longrightarrow> elems_ok (foldl (clean_step rooted) st es)"
  by (induction es arbitrary: st) (simp_all add: clean_step_ok)

lemma join_slash_head: "elems_ok st \<Longrightarrow> take 1 (join_slash st) \<noteq> ''/''"
  by (induction st rule: join_slash.induct) (auto simp: elems_ok_def neq_Nil_conv)

lemma path_Join_root:
  "\<exists>rest. path_Join [''/'', p] = CHR ''/'' # rest \<and> take 1 rest \<noteq> ''/''"
proof -
  let ?st = "foldl (clean_step True) [] (splitc CHR ''/'' (''//'' @ p))"
  have "list_all (\<lambda>e. CHR ''/'' \<notin> set e) (splitc CHR ''/'' (''//'' @ p))"
    unfolding list_all_iff using splitc_no_sep by blast
  then have "elems_ok ?st"
    by (intro foldl_clean_step_ok) (simp_all add: elems_ok_def)
  then have "take 1 (join_slash ?st) \<noteq> ''/''"
    by (rule join_slash_head)
  moreover have "path_Join [''/'', p] = CHR ''/'' # join_slash ?st"
    by (simp add: path_Join_def path_Clean_def)
  ultimately show ?thesis by blast
qed

text \<open>
  C8. When \<open>http.NewRequest\<close> accepts method and URL, \<open>doWithParams\<close> hands exactly one
  request to the transport. Its path is the given path joined to \<open>/\<close>, which begins
  with one slash and not with two; the URL is the endpoint followed by that path. The
  clock is read once: the \<open>Date\<close> header is that reading in RFC3339 form, and the signed
  message is method, path and the Unix seconds of the same reading, separated by
  spaces. \<open>Content-Type\<close> and \<open>Accept\<close> are \<open>application/json\<close>, and the Basic
  credentials are the auth key with the signature of the message under the secret.
\<close>

theorem doWithParams_request:
  assumes "http_NewRequest_err E reqMethod (apiEndpoint ch @ path_Join [''/'', reqPath]) = None"
  shows "\<exists>r rest.
      sent (snd (doWithParams E ch reqMethod reqPath reqParams reqBody w)) = sent w @ [r]
    \<and> path_Join [''/'', reqPath] = CHR ''/'' # rest \<and> take 1 rest \<noteq> ''/''
    \<and> Method r = reqMethod
    \<and> URL r = apiEndpoint ch @ CHR ''/'' # rest
    \<and> Query r = reqParams
    \<and> ReqBody r = reqBody
    \<and> Header r ''Content-Type'' = Some ''application/json''
    \<and> Header r ''Accept'' = Some ''application/json''
    \<and> Header r ''Date'' = Some (time_Format_RFC3339_UTC E (fst (time_Now E (ext w))))
    \<and> BasicAuth r =
        Some (authKey ch,
              getSignature E
                (reqMethod @ '' '' @ CHR ''/'' # rest @ '' ''
                   @ itoa (sint (time_Unix E (fst (time_Now E (ext w))))))
                (authSecret ch))"
proof -
  obtain rest where rest: "path_Join [''/'', reqPath] = CHR ''/'' # rest" "take 1 rest \<noteq> ''/''"
    using path_Join_root by blast
  show ?thesis
    using assms rest
    by (simp add: doWithParams_def Let_def split: prod.splits)
qed

text \<open>
  A GET of a record collection with the default client: the request that reaches the
  transport.
\<close>

theorem doWithParams_request_witness:
  "sent (snd (doWithParams (stub_env (\<lambda>k. (200, [])) []) (New ''key'' ''secret'' []) ''GET''
                ''v2/service/12345678/dns/record'' no_Values None stub_world))
   = [\<lparr>Method = ''GET'',
       URL = ''https://rest.active24.cz/v2/service/12345678/dns/record'',
       Query = no_Values,
       Header = [''Content-Type'' \<mapsto> ''application/json'',
                 ''Accept'' \<mapsto> ''application/json'',
                 ''Date'' \<mapsto> ''2023-11-14T22:13:20Z''],
       BasicAuth = Some (''key'',
                         getSignature (stub_env (\<lambda>k. (200, [])) [])
                           ''GET /v2/service/12345678/dns/record 1700000000'' ''secret''),
       ReqBody = None\<rparr>]"
  using doWithParams_request
    [of "stub_env (\<lambda>k. (200, [])) []" "''GET''" "New ''key'' ''secret'' []"
        "''v2/service/12345678/dns/record''" no_Values None stub_world]
  by (simp add: stub_simps getSignature_def path_Join_def path_Clean_def clean_step_def itoa_def)

section \<open>Delete\<close>

text \<open>
  C3. The server answers the DELETE request with status 404, and \<open>Delete\<close> returns a
  nil error: \<open>http.Client.Do\<close> gives a response with a nil error, and \<open>apiErr\<close> passes the
  nil on. The status is looked at in \<open>ListPaginated\<close> only.
\<close>

theorem Delete_ignores_status_404:
  "Delete (stub_env (\<lambda>k. (404, [])) []) (With (New ''key'' ''secret'' []) 12345678) 42 stub_world
   = (None,
      \<lparr>sent = [\<lparr>Method = ''DELETE'',
                URL = ''https://rest.active24.cz/v2/service/12345678/dns/record/42'',
                Query = no_Values,
                Header = [''Content-Type'' \<mapsto> ''application/json'',
                          ''Accept'' \<mapsto> ''application/json'',
                          ''Date'' \<mapsto> ''2023-11-14T22:13:20Z''],
                BasicAuth = Some (''key'', ''deadbeef''),
                ReqBody = None\<rparr>],
       ext = 1\<rparr>)"
  by (simp add: stub_simps Delete_def getSignature_def path_Join_def path_Clean_def
        clean_step_def itoa_def hextable_def)

section \<open>The query of a page request\<close>

lemma base_params_eq:
  "(let reqParams = Values_Add no_Values ''descending'' ''false'';
        reqParams = Values_Add reqParams ''sortBy'' ''name'';
        reqParams = (if recType \<noteq> [] then
                       Values_Add reqParams ''filters[type]''
                         (''['' @ [CHR 0x22] @ recType @ [CHR 0x22] @ '']'')
                     else reqParams);
        reqParams = (if recName \<noteq> [] then Values_Add reqParams ''filters[name]'' recName
                     else reqParams)
    in f reqParams) = f (base_params recType recName)"
proof -
  have "(if recName \<noteq> [] then Values_Add (if recType \<noteq> [] then
                       Values_Add (Values_Add (Values_Add no_Values ''descending'' ''false'') ''sortBy'' ''name'') ''filters[type]''
                         (''['' @ [CHR 0x22] @ recType @ [CHR 0x22] @ '']'')
                     else (Values_Add (Values_Add no_Values ''descending'' ''false'') ''sortBy'' ''name'')) ''filters[name]'' recName
         else (if recType \<noteq> [] then
                       Values_Add (Values_Add (Values_Add no_Values ''descending'' ''false'') ''sortBy'' ''name'') ''filters[type]''
                         (''['' @ [CHR 0x22] @ recType @ [CHR 0x22] @ '']'')
                     else (Values_Add (Values_Add no_Values ''descending'' ''false'') ''sortBy'' ''name'')))
       = base_params recType recName"
    by (rule ext) (simp add: Values_Add_def no_Values_def base_params_def)
  then show ?thesis by (simp add: Let_def)
qed

lemma ListPaginated_params_eq:
  "ListPaginated_params E recType recName recPageUrl recPage x =
     (case (if recPageUrl = [] then None else snd (url_ParseQuery E recPageUrl)) of
        Some e \<Rightarrow> Inl e
      | None \<Rightarrow> Inr (page_params E recType recName recPageUrl recPage x))"
  unfolding ListPaginated_params_def base_params_eq
  by (auto simp: page_params_def locator_param_def word_sless_alt
           split: prod.splits option.splits)

lemma doWithParams_sent:
  "doWithParams E ch m p q b w = (res, w') \<Longrightarrow>
     sent w' = sent w \<and> (\<exists>e. res = Failed None e)
     \<or> (\<exists>r. sent w' = sent w @ [r] \<and> Query r = q \<and> Method r = m)"
  by (auto simp: doWithParams_def Let_def split: prod.splits option.splits)

lemma ListPaginated_sent:
  "ListPaginated E d recType recName recPageUrl recPage w = ((ret, e), w') \<Longrightarrow>
     sent w' = sent w \<and> e \<noteq> None
     \<or> (\<exists>r. sent w' = sent w @ [r]
            \<and> Query r = page_params E recType recName recPageUrl recPage (ext w))"
  unfolding ListPaginated_def ListPaginated_params_eq
  by (auto simp: apiErr_def split: option.splits prod.splits transport_result.splits
           dest!: doWithParams_sent)

lemma ListPage_sent:
  "ListPage E d recType recName recPageUrl recPage w = ((recs, u, p, e), w') \<Longrightarrow>
     sent w' = sent w \<and> e \<noteq> None
     \<or> (\<exists>r. sent w' = sent w @ [r]
            \<and> Query r = page_params E recType recName recPageUrl recPage (ext w))"
  unfolding ListPage_def
  by (auto split: prod.splits option.splits if_splits dest!: ListPaginated_sent)

lemma page_params_first: "page_params E recType recName [] 0 x = base_params recType recName"
  by (simp add: page_params_def locator_param_def)

lemma page_params_cases:
  "page_params E recType recName u p x = base_params recType recName
   \<or> (\<exists>k v. page_params E recType recName u p x = Values_Add (base_params recType recName) k v)"
  by (auto simp: page_params_def split: option.splits)

lemma List_loop_requests:
  assumes "List_loop E d recType recName pageCount nextPageUrl nextPage allRecords w = Some (out, w')"
  shows "\<exists>reqs. sent w' = sent w @ reqs
           \<and> list_all (\<lambda>r. Query r = base_params recType recName
                          \<or> (\<exists>k v. Query r = Values_Add (base_params recType recName) k v)) reqs
           \<and> (reqs \<noteq> [] \<longrightarrow> Query (hd reqs)
                 = page_params E recType recName nextPageUrl nextPage (ext w))"
proof -
  have "\<exists>reqs. sent (snd y) = sent w @ reqs
           \<and> list_all (\<lambda>r. Query r = base_params recType recName
                          \<or> (\<exists>k v. Query r = Values_Add (base_params recType recName) k v)) reqs
           \<and> (reqs \<noteq> [] \<longrightarrow> Query (hd reqs)
                 = page_params E recType recName nextPageUrl nextPage (ext w))"
    if "List_loop E d recType recName pageCount nextPageUrl nextPage allRecords w = Some y" for y
    using that
  proof (induct rule: List_loop.raw_induct [rotated 1, consumes 1])
    case (1 loop E d recType recName pageCount nextPageUrl nextPage allRecords w y)
    show ?case
    proof (cases "(pageCount = 1 \<or> nextPageUrl \<noteq> [] \<or> 0 <s nextPage) \<and> pageCount \<le>s maxPages (h d)")
      case False
      with 1(2) have "snd y = w"
        by (auto split: if_splits)
      then show ?thesis by simp
    next
      case True
      obtain recs u p e w1 where lp:
        "ListPage E d recType recName nextPageUrl nextPage w = ((recs, u, p, e), w1)"
        by (metis prod.collapse)
      from ListPage_sent [OF lp] consider
        (none) "sent w1 = sent w" "e \<noteq> None"
        | (one) r where "sent w1 = sent w @ [r]"
            "Query r = page_params E recType recName nextPageUrl nextPage (ext w)"
        by blast
      then show ?thesis
      proof cases
        case none
        with True lp 1(2) have "snd y = w1"
          by auto
        with none show ?thesis by simp
      next
        case one
        show ?thesis
        proof (cases e)
          case (Some a)
          with True lp 1(2) have "snd y = w1"
            by auto
          with one show ?thesis
            using page_params_cases [of E recType recName nextPageUrl nextPage "ext w"] by simp
        next
          case None
          with True lp 1(2) have rec: "loop E d recType recName (pageCount + 1) u p (allRecords @ recs) w1 = Some y"
            by simp
          have "\<exists>reqs. sent (snd y) = sent w1 @ reqs
                  \<and> list_all (\<lambda>r. Query r = base_params recType recName
                          \<or> (\<exists>k v. Query r = Values_Add (base_params recType recName) k v)) reqs
                  \<and> (reqs \<noteq> [] \<longrightarrow> Query (hd reqs)
                        = page_params E recType recName u p (ext w1))"
            by (rule 1(1) [OF rec])
          then obtain reqs where
            "sent (snd y) = sent w1 @ reqs" "list_all (\<lambda>r. Query r = base_params recType recName
                          \<or> (\<exists>k v. Query r = Values_Add (base_params recType recName) k v)) reqs"
            by blast
          with one show ?thesis
            using page_params_cases [of E recType recName nextPageUrl nextPage "ext w"] by simp
        qed
      qed
    qed
  qed
  from this [OF assms] show ?thesis by simp
qed

text \<open>
  C4, as amended. A call of \<open>ListPaginated\<close> hands at most one request to the transport,
  and the query of that request is: \<open>descending=false\<close> and \<open>sortBy=name\<close>;
  \<open>filters[type]\<close> with the type in a JSON array literal when a type was requested, and
  \<open>filters[name]\<close> with the name when a name was requested; and one more parameter at
  most. That parameter is the one the locator contributes, when a locator is passed
  whose parsed query has a non-empty key with a non-empty first value at the entry
  visited first; otherwise it is \<open>page\<close> with the page number passed, when that number
  is above 1; otherwise there is none. The parameter is added to the values its key
  already has. In a run of \<open>List\<close> that returns, every request made carries the sort and
  the filters with at most one parameter more, and the first request carries the sort
  and the filters only.
\<close>

theorem page_request_params:
  "(ListPaginated E d recType recName recPageUrl recPage w = (res, w') \<longrightarrow>
      sent w' = sent w
      \<or> (\<exists>r. sent w' = sent w @ [r]
             \<and> Query r = page_params E recType recName recPageUrl recPage (ext w)))
   \<and> (List E d recType recName w0 = Some (out, w1) \<longrightarrow>
        (\<exists>reqs. sent w1 = sent w0 @ reqs
           \<and> (\<forall>r \<in> set reqs.
                 Query r = base_params recType recName
                 \<or> (\<exists>k v. Query r = Values_Add (base_params recType recName) k v))
           \<and> (reqs \<noteq> [] \<longrightarrow> Query (hd reqs) = base_params recType recName)))"
proof (intro conjI impI)
  assume a: "ListPaginated E d recType recName recPageUrl recPage w = (res, w')"
  obtain ret e where "res = (ret, e)" by (cases res)
  with a ListPaginated_sent [of E d recType recName recPageUrl recPage w ret e w']
  show "sent w' = sent w
      \<or> (\<exists>r. sent w' = sent w @ [r]
             \<and> Query r = page_params E recType recName recPageUrl recPage (ext w))"
    by auto
next
  assume "List E d recType recName w0 = Some (out, w1)"
  then have "List_loop E d recType recName 1 [] 0 [] w0 = Some (out, w1)"
    by (simp add: List_def)
  from List_loop_requests [OF this] obtain reqs where
    r: "sent w1 = sent w0 @ reqs"
      "list_all (\<lambda>r. Query r = base_params recType recName
                     \<or> (\<exists>k v. Query r = Values_Add (base_params recType recName) k v)) reqs"
      "reqs \<noteq> [] \<longrightarrow> Query (hd reqs) = page_params E recType recName [] 0 (ext w0)"
    by blast
  from r(2) have "\<forall>r \<in> set reqs.
                 Query r = base_params recType recName
                 \<or> (\<exists>k v. Query r = Values_Add (base_params recType recName) k v)"
    by (simp add: list_all_iff)
  with r(1,3) show "\<exists>reqs. sent w1 = sent w0 @ reqs
           \<and> (\<forall>r \<in> set reqs.
                 Query r = base_params recType recName
                 \<or> (\<exists>k v. Query r = Values_Add (base_params recType recName) k v))
           \<and> (reqs \<noteq> [] \<longrightarrow> Query (hd reqs) = base_params recType recName)"
    by (auto simp: page_params_first)
qed

text \<open>
  A request of \<open>ListPaginated\<close> for page 3 by number, with both filters; and the run
  \<open>List("CNAME", "host1")\<close> over two pages numbered 1 of 2 and 2 of 2: both requests
  carry the sort and the name filter, the second carries \<open>page=2\<close>.
\<close>

theorem page_request_params_witness:
  "param_values ''filters[type]''
     (sent (snd (ListPaginated (stub_env (\<lambda>k. (200, ''p'')) [(''p'', stub_page ''a'' None None None)])
                   (With (New ''key'' ''secret'' []) 12345678) ''CNAME'' ''host1'' [] 3 stub_world)))
     = [[[CHR ''['', CHR 0x22, CHR ''C'', CHR ''N'', CHR ''A'', CHR ''M'', CHR ''E'', CHR 0x22, CHR '']'']]]
   \<and> param_values ''page''
     (sent (snd (ListPaginated (stub_env (\<lambda>k. (200, ''p'')) [(''p'', stub_page ''a'' None None None)])
                   (With (New ''key'' ''secret'' []) 12345678) ''CNAME'' ''host1'' [] 3 stub_world)))
     = [[''3'']]
   \<and> param_values ''descending''
        (requests_of (List (stub_env (\<lambda>k. (200, if k = 0 then ''p1'' else ''p2''))
                    [(''p1'', stub_page ''a'' None (Some 1) (Some 2)),
                     (''p2'', stub_page ''b'' None (Some 2) (Some 2))])
          (With (New ''key'' ''secret'' []) 12345678) ''CNAME'' ''host1'' stub_world))
     = [[''false''], [''false'']]
   \<and> param_values ''sortBy''
        (requests_of (List (stub_env (\<lambda>k. (200, if k = 0 then ''p1'' else ''p2''))
                    [(''p1'', stub_page ''a'' None (Some 1) (Some 2)),
                     (''p2'', stub_page ''b'' None (Some 2) (Some 2))])
          (With (New ''key'' ''secret'' []) 12345678) ''CNAME'' ''host1'' stub_world))
     = [[''name''], [''name'']]
   \<and> param_values ''filters[name]''
        (requests_of (List (stub_env (\<lambda>k. (200, if k = 0 then ''p1'' else ''p2''))
                    [(''p1'', stub_page ''a'' None (Some 1) (Some 2)),
                     (''p2'', stub_page ''b'' None (Some 2) (Some 2))])
          (With (New ''key'' ''secret'' []) 12345678) ''CNAME'' ''host1'' stub_world))
     = [[''host1''], [''host1'']]
   \<and> param_values ''page''
        (requests_of (List (stub_env (\<lambda>k. (200, if k = 0 then ''p1'' else ''p2''))
                    [(''p1'', stub_page ''a'' None (Some 1) (Some 2)),
                     (''p2'', stub_page ''b'' None (Some 2) (Some 2))])
          (With (New ''key'' ''secret'' []) 12345678) ''CNAME'' ''host1'' stub_world))
     = [[], [''2'']]"
proof -
  let ?d = "With (New ''key'' ''secret'' []) 12345678"
  let ?E = "stub_env (\<lambda>k. (200, ''p'')) [(''p'', stub_page ''a'' None None None)]"
  let ?F = "stub_env (\<lambda>k. (200, if k = 0 then ''p1'' else ''p2''))
              [(''p1'', stub_page ''a'' None (Some 1) (Some 2)),
               (''p2'', stub_page ''b'' None (Some 2) (Some 2))]"
  let ?r3 = "ListPaginated ?E ?d ''CNAME'' ''host1'' [] 3 stub_world"
  let ?l = "List ?F ?d ''CNAME'' ''host1'' stub_world"
  have s3: "sent (snd ?r3) \<noteq> sent stub_world"
    by (simp add: stub_simps)
  have "?r3 = (fst ?r3, snd ?r3)" by simp
  with page_request_params [of ?E ?d "''CNAME''" "''host1''" "[]" 3 stub_world "fst ?r3" "snd ?r3"] s3
  obtain r where r: "sent (snd ?r3) = sent stub_world @ [r]"
    "Query r = page_params ?E ''CNAME'' ''host1'' [] 3 (ext stub_world)"
    by blast
  have "page_params ?E ''CNAME'' ''host1'' [] 3 (ext stub_world) ''page'' = [''3'']"
    "page_params ?E ''CNAME'' ''host1'' [] 3 (ext stub_world) ''filters[type]''
       = [[CHR ''['', CHR 0x22, CHR ''C'', CHR ''N'', CHR ''A'', CHR ''M'', CHR ''E'', CHR 0x22, CHR '']'']]"
    by (simp_all add: page_params_def locator_param_def Values_Add_def base_params_def itoa_def)
  with r have first: "param_values ''page'' (sent (snd ?r3)) = [[''3'']]"
    "param_values ''filters[type]'' (sent (snd ?r3))
       = [[[CHR ''['', CHR 0x22, CHR ''C'', CHR ''N'', CHR ''A'', CHR ''M'', CHR ''E'', CHR 0x22, CHR '']'']]]"
    by (simp_all add: param_values_def stub_world_def)
  have run: "param_values ''descending'' (requests_of ?l) = [[''false''], [''false'']]"
    "param_values ''sortBy'' (requests_of ?l) = [[''name''], [''name'']]"
    "param_values ''filters[name]'' (requests_of ?l) = [[''host1''], [''host1'']]"
    "param_values ''page'' (requests_of ?l) = [[], [''2'']]"
    by (simp_all add: List_def List_loop.simps requests_of_def param_values_def stub_simps itoa_def)
  from first run show ?thesis by simp
qed

text \<open>
  C4 as stated fails. The first page names the next one by the locator \<open>/?page=2\<close> and
  gives no page numbers, so the numeric form does not apply and \<open>ListPage\<close> returns the
  page number 0; the second request of \<open>List\<close> carries \<open>page=2\<close> all the same, taken from
  the locator. In the same way the second request of \<open>ListAll\<close>, where no name filter
  was requested, carries \<open>filters[name]\<close> when the locator names that key.
\<close>

theorem List_locator_adds_parameter:
  "fst (ListPage (stub_env (\<lambda>k. (200, if k = 0 then ''p1'' else ''p2''))
                    [(''p1'', stub_page ''a'' (Some ''/?page=2'') None None),
                     (''p2'', stub_page ''b'' None None None)])
          (With (New ''key'' ''secret'' []) 12345678) [] [] [] 0 stub_world)
     = ([stub_record ''a''], ''page=2'', 0, None)
   \<and> param_values ''page''
        (requests_of (List (stub_env (\<lambda>k. (200, if k = 0 then ''p1'' else ''p2''))
                    [(''p1'', stub_page ''a'' (Some ''/?page=2'') None None),
                     (''p2'', stub_page ''b'' None None None)])
          (With (New ''key'' ''secret'' []) 12345678) [] [] stub_world)) = [[], [''2'']]
   \<and> param_values ''filters[name]''
        (requests_of (ListAll (stub_env (\<lambda>k. (200, if k = 0 then ''p1'' else ''p2''))
                    [(''p1'', stub_page ''a'' (Some ''/?filters[name]=www'') None None),
                     (''p2'', stub_page ''b'' None None None)])
          (With (New ''key'' ''secret'' []) 12345678) stub_world)) = [[], [''www'']]"
  by (simp add: ListAll_def List_def List_loop.simps requests_of_def param_values_def stub_simps)

section \<open>The continuation of a page\<close>

text \<open>Adding 1 to a Go \<open>int\<close> that is below another does not wrap.\<close>

lemma sint_succ:
  fixes x y :: go_int
  assumes "x <s y"
  shows "sint (x + 1) = sint x + 1"
proof -
  have "sint y < 2 ^ 63" using sint_lt [of y] by simp
  with assms have up: "sint x + 1 < 2 ^ 63" by (simp add: word_sless_alt)
  have lo: "- (2 ^ 63) \<le> sint x + 1" using sint_ge [of x] by simp
  have "sint (x + 1) = signed_take_bit 63 (sint x + sint (1 :: go_int))"
    by (simp add: sint_word_ariths)
  also have "\<dots> = sint x + 1"
    using up lo by (simp add: signed_take_bit_int_eq_self)
  finally show ?thesis .
qed

lemma sint_succ_le:
  fixes x m :: go_int
  assumes "x \<le>s m" "sint m < 2 ^ 63 - 1"
  shows "sint (x + 1) = sint x + 1"
proof -
  from assms have up: "sint x + 1 < 2 ^ 63" by (simp add: word_sle_eq)
  have lo: "- (2 ^ 63) \<le> sint x + 1" using sint_ge [of x] by simp
  have "sint (x + 1) = signed_take_bit 63 (sint x + sint (1 :: go_int))"
    by (simp add: sint_word_ariths)
  also have "\<dots> = sint x + 1"
    using up lo by (simp add: signed_take_bit_int_eq_self)
  finally show ?thesis .
qed

lemma ListPage_continuation:
  assumes "ListPaginated E d recType recName recPageUrl recPage w = ((ret, None), w')"
  shows "\<exists>u p. ListPage E d recType recName recPageUrl recPage w = ((Data ret, u, p, None), w')
            \<and> (u, sint p) = continuation ret"
proof -
  have trim: "TrimLeft s ''/?'' = dropWhile (\<lambda>a. a = CHR ''/'' \<or> a = CHR ''?'') s" for s
    by (simp add: TrimLeft_def)
  show ?thesis
    using assms
    by (auto simp: ListPage_def continuation_def trim sint_succ word_sless_alt [symmetric]
          split: option.splits list.splits)
qed

text \<open>
  C2, as amended. For every page that was fetched and decoded without error,
  \<open>ListPage\<close> returns the records of the page with this continuation: when the locator is
  present and not empty, the locator without its leading \<open>/\<close> and \<open>?\<close> and the page
  number 0, whatever the page numbers say; otherwise, when current page and total are
  present and the current page is below the total, the empty locator and the current
  page plus 1 (which does not wrap); otherwise the empty locator and 0. When the locator
  returned is empty and the number returned is not above 0, the loop of \<open>List\<close> makes no
  further request after a fetch. In the next request the continuation shows as
  follows: a locator that \<open>url.ParseQuery\<close> rejects gives an error and no request; else
  the locator contributes one parameter at most (a non-empty key of its parsed query,
  with a non-empty first value), and only when it contributes none and the number is
  above 1 does the request carry \<open>page\<close> with that number.
\<close>

theorem ListPage_continuation_decision:
  assumes "ListPaginated E d recType recName recPageUrl recPage w = ((ret, None), w')"
  shows "\<exists>u p. ListPage E d recType recName recPageUrl recPage w = ((Data ret, u, p, None), w')
            \<and> (u, sint p) = continuation ret
            \<and> (\<forall>pageCount allRecords. pageCount \<noteq> 1 \<and> u = [] \<and> sint p \<le> 0 \<longrightarrow>
                 (\<exists>e. List_loop E d recType recName pageCount u p allRecords w'
                         = Some ((allRecords, e), w')))
            \<and> (\<forall>x. ListPaginated_params E recType recName u p x
                      = (case (if u = [] then None else snd (url_ParseQuery E u)) of
                           Some e \<Rightarrow> Inl e
                         | None \<Rightarrow> Inr (page_params E recType recName u p x)))"
proof -
  obtain u p where up:
    "ListPage E d recType recName recPageUrl recPage w = ((Data ret, u, p, None), w')"
    "(u, sint p) = continuation ret"
    using ListPage_continuation [OF assms] by blast
  have "\<exists>e. List_loop E d recType recName pageCount u p allRecords w' = Some ((allRecords, e), w')"
    if "pageCount \<noteq> 1" "u = []" "sint p \<le> 0" for pageCount allRecords
    using that by (subst List_loop.simps) (simp add: word_sless_alt)
  with up show ?thesis
    by (auto simp: ListPaginated_params_eq)
qed

text \<open>
  A page with the locator \<open>/?page=2\<close> and the numbers 1 of 3: the locator wins. The same
  page without locator announces page 2. A page with the numbers 3 of 3 announces
  nothing, and the loop stops after it, one request having been made.
\<close>

theorem ListPage_continuation_decision_witness:
  "fst (ListPage (stub_env (\<lambda>k. (200, ''p''))
                    [(''p'', stub_page ''a'' (Some ''/?page=2'') (Some 1) (Some 3))])
          (With (New ''key'' ''secret'' []) 12345678) [] [] [] 0 stub_world)
     = ([stub_record ''a''], ''page=2'', 0, None)
   \<and> continuation (stub_page ''a'' (Some ''/?page=2'') (Some 1) (Some 3)) = (''page=2'', 0)
   \<and> continuation (stub_page ''a'' None (Some 1) (Some 3)) = ([], 2)
   \<and> fst (ListPage (stub_env (\<lambda>k. (200, ''p'')) [(''p'', stub_page ''b'' None (Some 3) (Some 3))])
          (With (New ''key'' ''secret'' []) 12345678) [] [] [] 0 stub_world)
     = ([stub_record ''b''], [], 0, None)
   \<and> continuation (stub_page ''b'' None (Some 3) (Some 3)) = ([], 0)
   \<and> outcome (List_loop (stub_env (\<lambda>k. (200, ''p'')) [(''p'', stub_page ''b'' None (Some 3) (Some 3))])
          (With (New ''key'' ''secret'' []) 12345678) [] [] 2 [] 0 [stub_record ''b'']
          (snd (ListPage (stub_env (\<lambda>k. (200, ''p'')) [(''p'', stub_page ''b'' None (Some 3) (Some 3))])
                  (With (New ''key'' ''secret'' []) 12345678) [] [] [] 0 stub_world)))
     = Some ([stub_record ''b''], None, 1)"
proof -
  let ?d = "With (New ''key'' ''secret'' []) 12345678"
  let ?A = "stub_page ''a'' (Some ''/?page=2'') (Some 1) (Some 3)"
  let ?B = "stub_page ''b'' None (Some 3) (Some 3)"
  let ?E = "stub_env (\<lambda>k. (200, ''p'')) [(''p'', ?A)]"
  let ?F = "stub_env (\<lambda>k. (200, ''p'')) [(''p'', ?B)]"
  let ?r = "ListPaginated ?E ?d [] [] [] 0 stub_world"
  let ?q = "ListPaginated ?F ?d [] [] [] 0 stub_world"
  have ca: "continuation ?A = (''page=2'', 0)" and cb: "continuation ?B = ([], 0)"
    and cc: "continuation (stub_page ''a'' None (Some 1) (Some 3)) = ([], 2)"
    by (simp_all add: continuation_def stub_page_def)
  have "?r = ((?A, None), snd ?r)"
    by (simp add: prod_eq_iff stub_simps)
  from ListPage_continuation_decision [OF this] ca
  obtain p where a: "ListPage ?E ?d [] [] [] 0 stub_world = ((Data ?A, ''page=2'', p, None), snd ?r)"
    "sint p = 0"
    by auto
  have "?q = ((?B, None), snd ?q)"
    by (simp add: prod_eq_iff stub_simps)
  from ListPage_continuation_decision [OF this] cb
  obtain p' where b: "ListPage ?F ?d [] [] [] 0 stub_world = ((Data ?B, [], p', None), snd ?q)"
    "sint p' = 0"
    and stop: "\<forall>pageCount allRecords. pageCount \<noteq> 1 \<and> ([]::string) = [] \<and> sint p' \<le> 0 \<longrightarrow>
                 (\<exists>e. List_loop ?F ?d [] [] pageCount [] p' allRecords (snd ?q)
                         = Some ((allRecords, e), snd ?q))"
    by auto
  from stop b(2) obtain e where
    l: "List_loop ?F ?d [] [] 2 [] p' [stub_record ''b''] (snd ?q)
          = Some (([stub_record ''b''], e), snd ?q)"
    by fastforce
  have p0: "p' = 0" using b(2) by (simp add: signed_eq_0_iff)
  have "e = None"
    using l unfolding p0 by (subst (asm) List_loop.simps) (simp add: stub_simps)
  moreover have "length (sent (snd ?q)) = 1"
    by (simp add: stub_simps)
  ultimately show ?thesis
    using a b l ca cc cb p0
    by (simp add: outcome_def signed_eq_0_iff stub_page_def)
qed

text \<open>
  C2 as stated fails. The first page names the next one by \<open>/?page=2&limit=10\<close>. The
  second request does not carry the stripped locator as its query: of the two
  parameters it carries \<open>page=2\<close> and no \<open>limit\<close>.
\<close>

theorem locator_two_params:
  "fst (ListPage (stub_env (\<lambda>k. (200, if k = 0 then ''p1'' else ''p2''))
                    [(''p1'', stub_page ''a'' (Some ''/?page=2&limit=10'') None None),
                     (''p2'', stub_page ''b'' None None None)])
          (With (New ''key'' ''secret'' []) 12345678) [] [] [] 0 stub_world)
     = ([stub_record ''a''], ''page=2&limit=10'', 0, None)
   \<and> param_values ''page''
        (requests_of (List (stub_env (\<lambda>k. (200, if k = 0 then ''p1'' else ''p2''))
                    [(''p1'', stub_page ''a'' (Some ''/?page=2&limit=10'') None None),
                     (''p2'', stub_page ''b'' None None None)])
          (With (New ''key'' ''secret'' []) 12345678) [] [] stub_world)) = [[], [''2'']]
   \<and> param_values ''limit''
        (requests_of (List (stub_env (\<lambda>k. (200, if k = 0 then ''p1'' else ''p2''))
                    [(''p1'', stub_page ''a'' (Some ''/?page=2&limit=10'') None None),
                     (''p2'', stub_page ''b'' None None None)])
          (With (New ''key'' ''secret'' []) 12345678) [] [] stub_world)) = [[], []]"
  by (simp add: List_def List_loop.simps requests_of_def param_values_def stub_simps)

text \<open>
  C10. A call of \<open>ListPage\<close> that returns no error never returns both a non-empty
  locator and a page number other than 0; a call that returns an error returns no
  records, the empty locator and the page number 0.
\<close>

theorem ListPage_signals:
  "ListPage E d recType recName recPageUrl recPage w = ((records, nextPageUrl, nextPage, e), w')
   \<Longrightarrow> (e = None \<longrightarrow> \<not> (nextPageUrl \<noteq> [] \<and> nextPage \<noteq> 0))
       \<and> (e \<noteq> None \<longrightarrow> records = [] \<and> nextPageUrl = [] \<and> nextPage = 0)"
  by (auto simp: ListPage_def split: prod.splits option.splits if_splits)

text \<open>A page with locator and page numbers, fetched with status 200 and with status 500.\<close>

theorem ListPage_signals_witness:
  "(case ListPage (stub_env (\<lambda>k. (200, ''p'')) [(''p'', stub_page ''a'' (Some ''/?page=2'') (Some 1) (Some 3))])
            (With (New ''key'' ''secret'' []) 12345678) [] [] [] 0 stub_world of
      ((records, nextPageUrl, nextPage, e), w') \<Rightarrow>
        e = None \<and> nextPageUrl = ''page=2'' \<and> nextPage = 0)
   \<and> (case ListPage (stub_env (\<lambda>k. (500, ''p'')) [(''p'', stub_page ''a'' (Some ''/?page=2'') (Some 1) (Some 3))])
            (With (New ''key'' ''secret'' []) 12345678) [] [] [] 0 stub_world of
      ((records, nextPageUrl, nextPage, e), w') \<Rightarrow>
        e \<noteq> None \<and> records = [] \<and> nextPageUrl = [] \<and> nextPage = 0)"
proof -
  let ?d = "With (New ''key'' ''secret'' []) 12345678"
  let ?pages = "[(''p'', stub_page ''a'' (Some ''/?page=2'') (Some 1) (Some 3))]"
  obtain r1 u1 p1 e1 w1 where
    ok: "ListPage (stub_env (\<lambda>k. (200, ''p'')) ?pages) ?d [] [] [] 0 stub_world = ((r1, u1, p1, e1), w1)"
    by (metis prod.collapse)
  obtain r2 u2 p2 e2 w2 where
    ko: "ListPage (stub_env (\<lambda>k. (500, ''p'')) ?pages) ?d [] [] [] 0 stub_world = ((r2, u2, p2, e2), w2)"
    by (metis prod.collapse)
  from ok have "e1 = None" "u1 = ''page=2''"
    by (simp_all add: stub_simps)
  moreover from ko have "e2 \<noteq> None"
    by (auto simp add: stub_simps)
  ultimately show ?thesis
    using ListPage_signals [OF ok] ListPage_signals [OF ko] ok ko by simp
qed

section \<open>The loop of List\<close>


lemma List_reaches_loop:
  "List_reaches E d recType recName w0 pageCount nextPageUrl nextPage allRecords w \<Longrightarrow>
     List E d recType recName w0
       = List_loop E d recType recName pageCount nextPageUrl nextPage allRecords w"
proof (induction rule: List_reaches.induct)
  case start
  then show ?case by (simp add: List_def)
next
  case (fetch pageCount nextPageUrl nextPage allRecords w pageRecords nextPageUrl' nextPage' w')
  then show ?case
    by (subst (asm) List_loop.simps) simp
qed


text \<open>
  Unless the maximum page count is the largest \<open>int\<close>, the page counter cannot wrap
  and \<open>List\<close> returns, whatever the server does.
\<close>

lemma List_loop_returns:
  assumes "sint (maxPages (h d)) < 2 ^ 63 - 1"
  shows "\<exists>r. List_loop E d recType recName pageCount nextPageUrl nextPage allRecords w = Some r"
proof (induction "nat (sint (maxPages (h d)) + 1 - sint pageCount)"
         arbitrary: pageCount nextPageUrl nextPage allRecords w rule: less_induct)
  case less
  show ?case
  proof (cases "(pageCount = 1 \<or> nextPageUrl \<noteq> [] \<or> 0 <s nextPage) \<and> pageCount \<le>s maxPages (h d)")
    case False
    then show ?thesis
      by (subst List_loop.simps) auto
  next
    case True
    obtain recs u p e w' where lp:
      "ListPage E d recType recName nextPageUrl nextPage w = ((recs, u, p, e), w')"
      by (metis prod.collapse)
    show ?thesis
    proof (cases e)
      case (Some a)
      with True lp show ?thesis
        by (subst List_loop.simps) simp
    next
      case None
      from True assms have s: "sint (pageCount + 1) = sint pageCount + 1"
        by (intro sint_succ_le [of _ "maxPages (h d)"]) simp_all
      from True have "sint pageCount \<le> sint (maxPages (h d))"
        by (simp add: word_sle_eq)
      with s have "nat (sint (maxPages (h d)) + 1 - sint (pageCount + 1))
                     < nat (sint (maxPages (h d)) + 1 - sint pageCount)"
        by simp
      from less [OF this] obtain r where
        "List_loop E d recType recName (pageCount + 1) u p (allRecords @ recs) w' = Some r"
        by blast
      with True lp None show ?thesis
        by (subst List_loop.simps) simp
    qed
  qed
qed

lemma List_returns:
  "sint (maxPages (h d)) < 2 ^ 63 - 1 \<Longrightarrow> \<exists>r. List E d recType recName w = Some r"
  unfolding List_def by (rule List_loop_returns)

text \<open>
  C5. In every run of \<open>List\<close>, at every iteration of its loop: when the page fetch
  returns an error, \<open>List\<close> returns at once, in the world the failed fetch left, with no
  records, whatever it had accumulated, and with that error.
\<close>

theorem List_fetch_error_aborts:
  assumes "List_reaches E d recType recName w0 pageCount nextPageUrl nextPage allRecords w"
    and "(pageCount = 1 \<or> nextPageUrl \<noteq> [] \<or> 0 <s nextPage) \<and> pageCount \<le>s maxPages (h d)"
    and "ListPage E d recType recName nextPageUrl nextPage w
           = ((pageRecords, nextPageUrl', nextPage', Some e), w')"
  shows "List E d recType recName w0 = Some (([], Some e), w')"
  using assms(2,3) List_reaches_loop [OF assms(1)]
  by (subst (asm) List_loop.simps) simp

text \<open>
  The first page is served and names a second one; the second fetch is answered with
  status 500. \<open>List\<close> returns no records and the error of the second fetch, after two
  requests.
\<close>

theorem List_fetch_error_aborts_witness:
  "outcome (List (stub_env (\<lambda>k. if k = 0 then (200, ''p'') else (500, []))
                    [(''p'', stub_page ''a'' (Some ''/?page=2'') None None)])
              (With (New ''key'' ''secret'' []) 12345678) [] [] stub_world)
   = Some ([],
           Some \<lparr>err = Error ''invalid response from API: 500'',
                 resp = Some \<lparr>StatusCode = 500, Body = Inr []\<rparr>\<rparr>, 2)"
proof -
  let ?E = "stub_env (\<lambda>k. if k = 0 then (200, ''p'') else (500, []))
              [(''p'', stub_page ''a'' (Some ''/?page=2'') None None)]"
  let ?d = "With (New ''key'' ''secret'' []) 12345678"
  let ?e = "\<lparr>err = Error ''invalid response from API: 500'',
             resp = Some \<lparr>StatusCode = 500, Body = Inr []\<rparr>\<rparr>"
  define w1 where "w1 = snd (ListPage ?E ?d [] [] [] 0 stub_world)"
  define w2 where "w2 = snd (ListPage ?E ?d [] [] ''page=2'' 0 w1)"
  have p1: "ListPage ?E ?d [] [] [] 0 stub_world = (([stub_record ''a''], ''page=2'', 0, None), w1)"
    unfolding w1_def by (simp add: prod_eq_iff stub_simps)
  have p2: "ListPage ?E ?d [] [] ''page=2'' 0 w1 = (([], [], 0, Some ?e), w2)"
    unfolding w2_def w1_def by (simp add: prod_eq_iff stub_simps itoa_def)
  have n: "length (sent w2) = 2"
    unfolding w2_def w1_def by (simp add: stub_simps)
  have m: "maxPages (h ?d) = 100"
    by (simp add: With_def New_def)
  have r0: "List_reaches ?E ?d [] [] stub_world 1 [] 0 [] stub_world"
    by (rule List_reaches.start)
  have r1: "List_reaches ?E ?d [] [] stub_world (1 + 1) ''page=2'' 0 ([] @ [stub_record ''a'']) w1"
    by (rule List_reaches.fetch [OF r0 _ p1]) (simp add: m word_sle_eq)
  have "List ?E ?d [] [] stub_world = Some (([], Some ?e), w2)"
    by (rule List_fetch_error_aborts [OF r1 _ p2]) (simp add: m word_sle_eq)
  then show ?thesis
    by (simp add: outcome_def n)
qed




text \<open>
  The case that the amended statement leaves open. With maximum page count 2, a server
  that answers every request with a page numbered 1 of 3 and no locator is asked twice,
  and \<open>List\<close> returns the records of both pages with a nil error: after the loop the next
  page number 2 is compared with the maximum page count, where the loop condition
  compares it with 0.
\<close>

lemma List_stuck_page_number:
  "outcome (List (stub_env (\<lambda>k. (200, ''p'')) [(''p'', stub_page ''a'' None (Some 1) (Some 3))])
              (With ((New ''key'' ''secret'' [])\<lparr>maxPages := 2\<rparr>) 12345678) [] [] stub_world)
   = Some ([stub_record ''a'', stub_record ''a''], None, 2)"
  by (simp add: List_def List_loop.simps outcome_def stub_simps)

text \<open>
  C9. \<open>ListAll\<close> returns what \<open>List\<close> returns for the empty type and the empty name:
  the same records, the same error and the same effect on the world, and it returns
  exactly when \<open>List\<close> does.
\<close>

theorem ListAll_is_unfiltered_List:
  "ListAll E d w = List E d [] [] w"
  by (simp add: ListAll_def)

end
